theory Spec2Isabelle
  imports Main
begin

section \<open>Data of the controller (main.py)\<close>

text \<open>The six controller states of \<^verbatim>\<open>class GameState(Enum)\<close>.\<close>

datatype GameState = MENU | PLAYING | PAUSED | GAME_OVER | RANKINGS | SETTINGS

text \<open>
  A Python \<^verbatim>\<open>str\<close> is a sequence of Unicode code points. Typed text can hold any code
  point, so a string is a list of code points; \<open>ustr\<close> embeds a literal whose
  characters are below 256.
\<close>

type_synonym ustring = "nat list"

definition ustr :: "string \<Rightarrow> ustring" where
  "ustr s = map of_char s"

text \<open>The name literal of \<^verbatim>\<open>_handle_game_over_events\<close>: "An", code point 243 (o with acute accent), "nimo".\<close>

definition Anonimo :: ustring where
  "Anonimo = ustr ''An'' @ [243] @ ustr ''nimo''"

text \<open>
  Key codes are the integers of pygame 2 (SDL2 key codes); the controller only compares them
  for equality and tests \<^verbatim>\<open>self.last_key\<close> for truthiness.
\<close>

definition K_BACKSPACE :: int where "K_BACKSPACE = 8"
definition K_RETURN :: int where "K_RETURN = 13"
definition K_ESCAPE :: int where "K_ESCAPE = 27"
definition K_SPACE :: int where "K_SPACE = 32"
definition K_p :: int where "K_p = 112"
definition K_RIGHT :: int where "K_RIGHT = 1073741903"
definition K_LEFT :: int where "K_LEFT = 1073741904"
definition K_DOWN :: int where "K_DOWN = 1073741905"
definition K_UP :: int where "K_UP = 1073741906"

text \<open>
  A pygame event as the handlers read it: its type, and for a key event \<^verbatim>\<open>event.key\<close>
  and (key-down only) \<^verbatim>\<open>event.unicode\<close>.
\<close>

datatype event = QUIT | KEYDOWN int ustring | KEYUP int | OTHER

text \<open>
  pygame documents \<^verbatim>\<open>event.unicode\<close> as a single character string; it is empty for a key
  that produces no text.
\<close>

fun wf_event :: "event \<Rightarrow> bool" where
  "wf_event (KEYDOWN k u) = (length u \<le> 1)"
| "wf_event _ = True"

text \<open>
  The collaborating classes live in modules that main.py imports (board, pieces, score, ui).
  Of each object the controller reads and writes a few attributes, which are the fields
  below; whatever else the object holds is the extension part of the record. The fields
  \<open>px\<close> and \<open>py\<close> are the attributes \<^verbatim>\<open>x\<close> and \<^verbatim>\<open>y\<close> of a piece.
\<close>

record Piece =
  px :: int
  py :: int
  rotation :: int

record Board =
  level :: int
  lines_cleared :: int

record GameUI =
  selected_option :: int

text \<open>
  The methods of the collaborators that main.py calls, as parameters. A method that mutates
  its object returns the new object. \<open>add_piece\<close> also returns the score manager, since
  the clear of a line is reported to it. \<open>alnum\<close> is Python's \<^verbatim>\<open>str.isalnum\<close> on one
  code point.
\<close>

record ('k, 'y, 'g, 's, 'x) env =
  is_valid_position :: "'y Board_scheme \<Rightarrow> 'k Piece_scheme \<Rightarrow> bool"
  add_piece :: "'y Board_scheme \<Rightarrow> 's \<Rightarrow> 'k Piece_scheme \<Rightarrow> bool \<times> 'y Board_scheme \<times> 's"
  hard_drop :: "'y Board_scheme \<Rightarrow> 'k Piece_scheme \<Rightarrow> int \<times> 'k Piece_scheme"
  new_board :: "'y Board_scheme"
  get_next_piece :: "'g \<Rightarrow> 'k Piece_scheme \<times> 'g"
  move_left :: "'k Piece_scheme \<Rightarrow> 'k Piece_scheme"
  move_right :: "'k Piece_scheme \<Rightarrow> 'k Piece_scheme"
  move_down :: "'k Piece_scheme \<Rightarrow> 'k Piece_scheme"
  rotate :: "'k Piece_scheme \<Rightarrow> 'k Piece_scheme"
  reset_score :: "'s \<Rightarrow> 's"
  is_highscore :: "'s \<Rightarrow> bool"
  add_highscore :: "'s \<Rightarrow> ustring \<Rightarrow> int \<Rightarrow> int \<Rightarrow> 's"
  save_highscores :: "'s \<Rightarrow> 's"
  handle_menu_input :: "'x GameUI_scheme \<Rightarrow> event \<Rightarrow> string \<Rightarrow> ustring option \<times> 'x GameUI_scheme"
  alnum :: "nat \<Rightarrow> bool"

text \<open>The attributes of \<^verbatim>\<open>class Game\<close>.\<close>

record ('k, 'y, 'g, 's, 'x) Game =
  running :: bool
  state :: GameState
  player_name :: ustring
  input_active :: bool
  board :: "'y Board_scheme"
  piece_generator :: 'g
  current_piece :: "'k Piece_scheme"
  fall_speed :: int
  fall_counter :: int
  soft_drop_active :: bool
  key_repeat_delay :: int
  key_repeat_interval :: int
  last_key_time :: int
  last_key :: "int option"
  score_manager :: 's
  ui :: "'x GameUI_scheme"

section \<open>Python string tests\<close>

text \<open>\<^verbatim>\<open>s.isalnum()\<close>: s is not empty and every character is alphanumeric.\<close>

definition isalnum :: "('k, 'y, 'g, 's, 'x) env \<Rightarrow> ustring \<Rightarrow> bool" where
  "isalnum E s = (s \<noteq> [] \<and> list_all (alnum E) s)"

text \<open>\<^verbatim>\<open>u in s\<close> on strings: u occurs in s as a contiguous substring.\<close>

fun starts_with :: "ustring \<Rightarrow> ustring \<Rightarrow> bool" where
  "starts_with s [] = True"
| "starts_with [] (c # u) = False"
| "starts_with (d # s) (c # u) = (d = c \<and> starts_with s u)"

fun str_in :: "ustring \<Rightarrow> ustring \<Rightarrow> bool" where
  "str_in u [] = (u = [])"
| "str_in u (c # s) = (starts_with (c # s) u \<or> str_in u s)"

section \<open>Initialisation\<close>

text \<open>
  \<^verbatim>\<open>_init_game\<close>. \<open>pg\<close> is the generator that \<^verbatim>\<open>PieceGenerator(3)\<close> constructs: its
  shuffle is random, so the fresh generator is an input. The \<^verbatim>\<open>hasattr\<close> branch never
  runs (the attribute is assigned nowhere).
\<close>

definition init_game ::
  "('k, 'y, 'g, 's, 'x) env \<Rightarrow> 'g \<Rightarrow> ('k, 'y, 'g, 's, 'x) Game \<Rightarrow> ('k, 'y, 'g, 's, 'x) Game" where
  "init_game E pg g =
     (let (p, pg') = get_next_piece E pg in
      g\<lparr>board := new_board E,
        piece_generator := pg',
        current_piece := p,
        fall_speed := 30,
        fall_counter := 0,
        soft_drop_active := False,
        key_repeat_delay := 170,
        key_repeat_interval := 50,
        last_key_time := 0,
        last_key := None,
        score_manager := reset_score E (score_manager g)\<rparr>)"

text \<open>
  \<^verbatim>\<open>Game.__init__\<close>: \<open>sm\<close> and \<open>u\<close> are the objects that \<^verbatim>\<open>ScoreManager()\<close> and
  \<^verbatim>\<open>GameUI(...)\<close> construct.
\<close>

definition Game_init ::
  "('k, 'y, 'g, 's, 'x) env \<Rightarrow> 's \<Rightarrow> 'x GameUI_scheme \<Rightarrow> 'g \<Rightarrow> ('k, 'y, 'g, 's, 'x) Game" where
  "Game_init E sm u pg =
     (let (p, pg') = get_next_piece E pg in
      \<lparr>running = True,
       state = MENU,
       player_name = [],
       input_active = False,
       board = new_board E,
       piece_generator = pg',
       current_piece = p,
       fall_speed = 30,
       fall_counter = 0,
       soft_drop_active = False,
       key_repeat_delay = 170,
       key_repeat_interval = 50,
       last_key_time = 0,
       last_key = None,
       score_manager = reset_score E sm,
       ui = u\<rparr>)"

section \<open>Movement, lock and spawn\<close>

text \<open>\<^verbatim>\<open>_apply_key_movement\<close>.\<close>

definition apply_key_movement ::
  "('k, 'y, 'g, 's, 'x) env \<Rightarrow> int \<Rightarrow> ('k, 'y, 'g, 's, 'x) Game \<Rightarrow> ('k, 'y, 'g, 's, 'x) Game" where
  "apply_key_movement E key g =
     (let p0 = current_piece g;
          p1 = (if key = K_LEFT then move_left E p0
                else if key = K_RIGHT then move_right E p0
                else if key = K_UP then rotate E p0
                else p0)
      in if \<not> is_valid_position E (board g) p1
         then (let p2 = p1\<lparr>px := px p0, py := py p0\<rparr>
               in g\<lparr>current_piece :=
                      (if key = K_UP then p2\<lparr>rotation := rotation p0\<rparr> else p2)\<rparr>)
         else g\<lparr>current_piece := p1\<rparr>)"

text \<open>
  The tail shared by \<^verbatim>\<open>_move_piece_down\<close> and \<^verbatim>\<open>_perform_hard_drop\<close> (the source
  repeats it): lock the piece \<open>p\<close>, draw the next piece, check its position.
\<close>

definition lock_and_spawn ::
  "('k, 'y, 'g, 's, 'x) env \<Rightarrow> 'k Piece_scheme \<Rightarrow> ('k, 'y, 'g, 's, 'x) Game \<Rightarrow> ('k, 'y, 'g, 's, 'x) Game" where
  "lock_and_spawn E p g =
     (let (ok, b', s') = add_piece E (board g) (score_manager g) p;
          g1 = g\<lparr>current_piece := p, board := b', score_manager := s'\<rparr>
      in if \<not> ok then g1\<lparr>state := GAME_OVER\<rparr>
         else (let (p', pg') = get_next_piece E (piece_generator g1);
                   g2 = g1\<lparr>current_piece := p', piece_generator := pg'\<rparr>
               in if \<not> is_valid_position E (board g2) p'
                  then g2\<lparr>state := GAME_OVER\<rparr>
                  else g2))"

text \<open>\<^verbatim>\<open>_move_piece_down\<close>.\<close>

definition move_piece_down ::
  "('k, 'y, 'g, 's, 'x) env \<Rightarrow> ('k, 'y, 'g, 's, 'x) Game \<Rightarrow> ('k, 'y, 'g, 's, 'x) Game" where
  "move_piece_down E g =
     (let p0 = current_piece g;
          p1 = move_down E p0
      in if \<not> is_valid_position E (board g) p1
         then lock_and_spawn E (p1\<lparr>py := py p0\<rparr>) g
         else g\<lparr>current_piece := p1\<rparr>)"

text \<open>\<^verbatim>\<open>_perform_hard_drop\<close>.\<close>

definition perform_hard_drop ::
  "('k, 'y, 'g, 's, 'x) env \<Rightarrow> ('k, 'y, 'g, 's, 'x) Game \<Rightarrow> ('k, 'y, 'g, 's, 'x) Game" where
  "perform_hard_drop E g =
     (let (distance, p) = hard_drop E (board g) (current_piece g)
      in lock_and_spawn E p g)"

section \<open>Event handlers\<close>

text \<open>
  \<^verbatim>\<open>_handle_game_events\<close>; \<open>now\<close> is what \<^verbatim>\<open>pygame.time.get_ticks()\<close> returns while
  the event is handled.
\<close>

definition handle_game_events ::
  "('k, 'y, 'g, 's, 'x) env \<Rightarrow> int \<Rightarrow> event \<Rightarrow> ('k, 'y, 'g, 's, 'x) Game \<Rightarrow> ('k, 'y, 'g, 's, 'x) Game" where
  "handle_game_events E now ev g =
     (case ev of
        KEYDOWN key u \<Rightarrow>
          if key = K_p then g\<lparr>state := PAUSED, ui := (ui g)\<lparr>selected_option := 0\<rparr>\<rparr>
          else if key = K_ESCAPE then g\<lparr>state := MENU, ui := (ui g)\<lparr>selected_option := 0\<rparr>\<rparr>
          else if key = K_SPACE then perform_hard_drop E g
          else (let g1 = (if key = K_DOWN then g\<lparr>soft_drop_active := True\<rparr> else g)
                in apply_key_movement E key (g1\<lparr>last_key := Some key, last_key_time := now\<rparr>))
      | KEYUP key \<Rightarrow>
          (let g1 = (if key = K_DOWN then g\<lparr>soft_drop_active := False\<rparr> else g)
           in if last_key g1 = Some key then g1\<lparr>last_key := None\<rparr> else g1)
      | _ \<Rightarrow> g)"

text \<open>\<^verbatim>\<open>_handle_menu_events\<close>.\<close>

definition handle_menu_events ::
  "('k, 'y, 'g, 's, 'x) env \<Rightarrow> 'g \<Rightarrow> event \<Rightarrow> ('k, 'y, 'g, 's, 'x) Game \<Rightarrow> ('k, 'y, 'g, 's, 'x) Game" where
  "handle_menu_events E pg ev g =
     (let (action, u) = handle_menu_input E (ui g) ev ''main'';
          g1 = g\<lparr>ui := u\<rparr>
      in if action = Some (ustr ''Jugar'') then (init_game E pg g1)\<lparr>state := PLAYING\<rparr>
         else if action = Some (ustr ''Rankings'')
           then g1\<lparr>ui := (ui g1)\<lparr>selected_option := 0\<rparr>, state := RANKINGS\<rparr>
         else if action = Some (ustr ''Configuraci'' @ [243] @ ustr ''n'')
           then g1\<lparr>ui := (ui g1)\<lparr>selected_option := 0\<rparr>, state := SETTINGS\<rparr>
         else if action = Some (ustr ''Salir'') then g1\<lparr>running := False\<rparr>
         else g1)"

text \<open>\<^verbatim>\<open>_handle_pause_events\<close>.\<close>

definition handle_pause_events ::
  "('k, 'y, 'g, 's, 'x) env \<Rightarrow> 'g \<Rightarrow> event \<Rightarrow> ('k, 'y, 'g, 's, 'x) Game \<Rightarrow> ('k, 'y, 'g, 's, 'x) Game" where
  "handle_pause_events E pg ev g =
     (let (action, u) = handle_menu_input E (ui g) ev ''pause'';
          g1 = g\<lparr>ui := u\<rparr>
      in if action = Some (ustr ''Continuar'') then g1\<lparr>state := PLAYING\<rparr>
         else if action = Some (ustr ''Reiniciar'') then (init_game E pg g1)\<lparr>state := PLAYING\<rparr>
         else if action = Some (ustr ''Salir al Men'' @ [250])
           then g1\<lparr>state := MENU, ui := (ui g1)\<lparr>selected_option := 0\<rparr>\<rparr>
         else g1)"

text \<open>\<^verbatim>\<open>_handle_game_over_events\<close>.\<close>

definition handle_game_over_events ::
  "('k, 'y, 'g, 's, 'x) env \<Rightarrow> event \<Rightarrow> ('k, 'y, 'g, 's, 'x) Game \<Rightarrow> ('k, 'y, 'g, 's, 'x) Game" where
  "handle_game_over_events E ev g =
     (if is_highscore E (score_manager g) then
        (case ev of
           KEYDOWN key u \<Rightarrow>
             if key = K_RETURN then
               g\<lparr>score_manager :=
                    add_highscore E (score_manager g)
                      (if player_name g \<noteq> [] then player_name g else Anonimo)
                      (level (board g)) (lines_cleared (board g)),
                 state := MENU,
                 ui := (ui g)\<lparr>selected_option := 0\<rparr>,
                 player_name := []\<rparr>
             else if key = K_BACKSPACE then g\<lparr>player_name := butlast (player_name g)\<rparr>
             else if length (player_name g) < 15 then
               (if isalnum E u \<or> str_in u (ustr '' -_'')
                then g\<lparr>player_name := player_name g @ u\<rparr>
                else g)
             else g
         | _ \<Rightarrow> g)
      else g)"

text \<open>\<^verbatim>\<open>_handle_rankings_events\<close>.\<close>

definition handle_rankings_events ::
  "event \<Rightarrow> ('k, 'y, 'g, 's, 'x) Game \<Rightarrow> ('k, 'y, 'g, 's, 'x) Game" where
  "handle_rankings_events ev g =
     (case ev of
        KEYDOWN key u \<Rightarrow>
          if key = K_ESCAPE then g\<lparr>state := MENU, ui := (ui g)\<lparr>selected_option := 0\<rparr>\<rparr> else g
      | _ \<Rightarrow> g)"

text \<open>\<^verbatim>\<open>_handle_settings_events\<close>.\<close>

definition handle_settings_events ::
  "event \<Rightarrow> ('k, 'y, 'g, 's, 'x) Game \<Rightarrow> ('k, 'y, 'g, 's, 'x) Game" where
  "handle_settings_events ev g = g\<lparr>state := MENU, ui := (ui g)\<lparr>selected_option := 0\<rparr>\<rparr>"

text \<open>The body of the loop of \<^verbatim>\<open>_handle_events\<close> for an event that is not QUIT.\<close>

definition dispatch ::
  "('k, 'y, 'g, 's, 'x) env \<Rightarrow> int \<Rightarrow> 'g \<Rightarrow> event \<Rightarrow> ('k, 'y, 'g, 's, 'x) Game \<Rightarrow> ('k, 'y, 'g, 's, 'x) Game" where
  "dispatch E now pg ev g =
     (case state g of
        MENU \<Rightarrow> handle_menu_events E pg ev g
      | PLAYING \<Rightarrow> handle_game_events E now ev g
      | PAUSED \<Rightarrow> handle_pause_events E pg ev g
      | GAME_OVER \<Rightarrow> handle_game_over_events E ev g
      | RANKINGS \<Rightarrow> handle_rankings_events ev g
      | SETTINGS \<Rightarrow> handle_settings_events ev g)"

text \<open>
  \<^verbatim>\<open>_handle_events\<close>: the pending events, each with the tick count read while it is
  handled and the generator a restart would construct.
\<close>

fun handle_events ::
  "('k, 'y, 'g, 's, 'x) env \<Rightarrow> (event \<times> int \<times> 'g) list \<Rightarrow> ('k, 'y, 'g, 's, 'x) Game \<Rightarrow> ('k, 'y, 'g, 's, 'x) Game" where
  "handle_events E [] g = g"
| "handle_events E ((ev, now, pg) # rest) g =
     (if ev = QUIT then g\<lparr>running := False\<rparr>
      else handle_events E rest (dispatch E now pg ev g))"

section \<open>The frame update\<close>

text \<open>The first statement of \<^verbatim>\<open>_update_game\<close>: the repetition of the held key.\<close>

definition key_repeat ::
  "('k, 'y, 'g, 's, 'x) env \<Rightarrow> int \<Rightarrow> ('k, 'y, 'g, 's, 'x) Game \<Rightarrow> ('k, 'y, 'g, 's, 'x) Game" where
  "key_repeat E current_time g =
     (case last_key g of
        None \<Rightarrow> g
      | Some k \<Rightarrow>
          if k \<noteq> 0 \<and> current_time - last_key_time g > key_repeat_delay g
          then (apply_key_movement E k g)
                 \<lparr>last_key_time := current_time - (key_repeat_interval g - key_repeat_delay g)\<rparr>
          else g)"

text \<open>The fall interval \<^verbatim>\<open>_update_game\<close> computes (\<^verbatim>\<open>//\<close> is floor division).\<close>

definition fall_interval :: "int \<Rightarrow> bool \<Rightarrow> int" where
  "fall_interval lvl soft =
     (let fall_speed_decrement = 1;
          min_fall_speed = 5;
          initial_fall_speed = 30;
          level_fall_speed = max min_fall_speed (initial_fall_speed - (lvl - 1) * fall_speed_decrement)
      in if soft then level_fall_speed div 4 else level_fall_speed)"

text \<open>\<^verbatim>\<open>_update_game\<close>.\<close>

definition update_game ::
  "('k, 'y, 'g, 's, 'x) env \<Rightarrow> int \<Rightarrow> ('k, 'y, 'g, 's, 'x) Game \<Rightarrow> ('k, 'y, 'g, 's, 'x) Game" where
  "update_game E current_time g =
     (let g1 = key_repeat E current_time g;
          fs = fall_interval (level (board g1)) (soft_drop_active g1);
          g2 = g1\<lparr>fall_counter := fall_counter g1 + 1\<rparr>
      in if fall_counter g2 \<ge> fs
         then (move_piece_down E g2)\<lparr>fall_counter := 0\<rparr>
         else g2)"

text \<open>\<^verbatim>\<open>_update\<close>.\<close>

definition update ::
  "('k, 'y, 'g, 's, 'x) env \<Rightarrow> int \<Rightarrow> ('k, 'y, 'g, 's, 'x) Game \<Rightarrow> ('k, 'y, 'g, 's, 'x) Game" where
  "update E current_time g = (if state g = PLAYING then update_game E current_time g else g)"

section \<open>The main loop\<close>

text \<open>
  The exceptions that can escape the body of the loop of \<^verbatim>\<open>run\<close>, by the handler of
  \<^verbatim>\<open>run\<close> that meets them: \<^verbatim>\<open>KeyboardInterrupt\<close>, an instance of \<^verbatim>\<open>Exception\<close>, and
  any other \<^verbatim>\<open>BaseException\<close> (which no handler of \<^verbatim>\<open>run\<close> catches).
\<close>

datatype exn = KeyboardInterrupt | Exception | BaseException

text \<open>
  What \<^verbatim>\<open>_render\<close> does in one frame: it returns; it raises \<^verbatim>\<open>pygame.error\<close> with
  "video system not initialized" (the flag says whether the display could be restarted);
  it raises another \<^verbatim>\<open>pygame.error\<close>; or it raises something \<^verbatim>\<open>run\<close> does not catch
  inside the loop.
\<close>

datatype render_result = Rendered | VideoLost bool | PygameError | RenderRaised exn

text \<open>The calls \<^verbatim>\<open>run\<close> makes, in the order it makes them.\<close>

datatype call = HandleEvents | Update | Render | SaveHighscores | PygameQuit

text \<open>
  One iteration of the loop as the world presents it: the pending events, an exception raised
  while \<^verbatim>\<open>_handle_events\<close> runs (if any), the tick count \<^verbatim>\<open>_update\<close> reads, an
  exception raised while \<^verbatim>\<open>_update\<close> runs (if any), and the behaviour of
  \<^verbatim>\<open>_render\<close>.
\<close>

record 'g frame =
  events :: "(event \<times> int \<times> 'g) list"
  events_exn :: "exn option"
  ticks :: int
  update_exn :: "exn option"
  rendering :: render_result

text \<open>
  The \<^verbatim>\<open>while self.running\<close> loop. The result is the exception that left the loop (if
  any), the state and the calls made; \<open>None\<close> when the frames are used up and the loop is
  still running.
\<close>

fun run_loop ::
  "('k, 'y, 'g, 's, 'x) env \<Rightarrow> 'g frame list \<Rightarrow> ('k, 'y, 'g, 's, 'x) Game
     \<Rightarrow> (exn option \<times> ('k, 'y, 'g, 's, 'x) Game \<times> call list) option" where
  "run_loop E [] g = (if running g then None else Some (None, g, []))"
| "run_loop E (f # fs) g =
     (if \<not> running g then Some (None, g, [])
      else case events_exn f of
        Some e \<Rightarrow> Some (Some e, g, [HandleEvents])
      | None \<Rightarrow>
          (let g1 = handle_events E (events f) g
           in case update_exn f of
                Some e \<Rightarrow> Some (Some e, g1, [HandleEvents, Update])
              | None \<Rightarrow>
                  (let g2 = update E (ticks f) g1;
                       cs = [HandleEvents, Update, Render]
                   in case rendering f of
                        RenderRaised e \<Rightarrow> Some (Some e, g2, cs)
                      | VideoLost False \<Rightarrow> Some (None, g2\<lparr>running := False\<rparr>, cs)
                      | _ \<Rightarrow> map_option (\<lambda>(r, g', cs'). (r, g', cs @ cs'))
                               (run_loop E fs g2))))"

text \<open>How \<^verbatim>\<open>run\<close> ends: it returns, or an exception propagates to its caller.\<close>

datatype exit = Returned | Raised exn

text \<open>
  \<^verbatim>\<open>run\<close>: the loop inside \<^verbatim>\<open>try\<close>; \<^verbatim>\<open>KeyboardInterrupt\<close> is caught and logged, an
  \<^verbatim>\<open>Exception\<close> is logged and raised again, and the \<^verbatim>\<open>finally\<close> block saves the
  highscores and closes pygame.
\<close>

definition run ::
  "('k, 'y, 'g, 's, 'x) env \<Rightarrow> 'g frame list \<Rightarrow> ('k, 'y, 'g, 's, 'x) Game
     \<Rightarrow> (exit \<times> ('k, 'y, 'g, 's, 'x) Game \<times> call list) option" where
  "run E fs g =
     (case run_loop E fs g of
        None \<Rightarrow> None
      | Some (r, g', cs) \<Rightarrow>
          Some (case r of
                  None \<Rightarrow> Returned
                | Some KeyboardInterrupt \<Rightarrow> Returned
                | Some e \<Rightarrow> Raised e,
                g'\<lparr>score_manager := save_highscores E (score_manager g')\<rparr>,
                cs @ [SaveHighscores, PygameQuit]))"

section \<open>Reachable controller states\<close>

text \<open>
  The states the controller can be in: the state after construction, and from there any
  event (as pygame delivers them) handled or any frame update.
\<close>

inductive reachable ::
  "('k, 'y, 'g, 's, 'x) env \<Rightarrow> ('k, 'y, 'g, 's, 'x) Game \<Rightarrow> bool" for E where
  start: "reachable E (Game_init E sm u pg)"
| handled: "reachable E g \<Longrightarrow> wf_event ev \<Longrightarrow> reachable E (handle_events E [(ev, now, pg)] g)"
| updated: "reachable E g \<Longrightarrow> reachable E (update E now g)"

text \<open>The characters a name may hold: alphanumeric, space, hyphen, underscore.\<close>

definition accepted_char :: "('k, 'y, 'g, 's, 'x) env \<Rightarrow> nat \<Rightarrow> bool" where
  "accepted_char E c = (alnum E c \<or> c = 32 \<or> c = 45 \<or> c = 95)"

section \<open>A sample instance of the collaborators\<close>

text \<open>
  An instance of board, pieces, generator, score manager and menu input, used to run the
  controller on concrete inputs. A piece carries the cell-offset table of its variant (one
  list of offsets per rotation); a board carries its locked cells as (column, row) pairs.
\<close>

type_synonym demo_piece = "(int \<times> int) list list Piece_scheme"
type_synonym demo_board = "(int \<times> int) list Board_scheme"
type_synonym demo_score = "int \<times> (ustring \<times> int \<times> int \<times> int) list"

text \<open>Modelled from the spec: the cells a piece occupies (module pieces is not among the sources).\<close>

definition demo_cells :: "demo_piece \<Rightarrow> (int \<times> int) list" where
  "demo_cells p =
     (case drop (nat (rotation p mod 4)) (Piece.more p) of
        [] \<Rightarrow> []
      | offs # _ \<Rightarrow> map (\<lambda>(dx, dy). (px p + dx, py p + dy)) offs)"

text \<open>Modelled from the spec: \<^verbatim>\<open>Board.is_valid_position\<close> on the 10 by 20 grid (module board is missing).\<close>

definition demo_valid :: "demo_board \<Rightarrow> demo_piece \<Rightarrow> bool" where
  "demo_valid b p =
     list_all (\<lambda>(cx, cy). 0 \<le> cx \<and> cx < 10 \<and> cy < 20 \<and> (cx, cy) \<notin> set (Board.more b))
       (demo_cells p)"

text \<open>Modelled from the spec: the full rows and their removal (module board is missing).\<close>

definition demo_full_rows :: "(int \<times> int) list \<Rightarrow> int list" where
  "demo_full_rows cs =
     filter (\<lambda>r. list_all (\<lambda>c. (c, r) \<in> set cs) (map int [0..<10])) (map int [0..<20])"

definition demo_clear :: "(int \<times> int) list \<Rightarrow> (int \<times> int) list" where
  "demo_clear cs =
     (let full = demo_full_rows cs
      in map (\<lambda>(c, r). (c, r + int (length (filter (\<lambda>f. r < f) full))))
           (filter (\<lambda>(c, r). r \<notin> set full) cs))"

text \<open>Modelled from the spec: \<^verbatim>\<open>Board.add_piece\<close>, with a level every 10 lines (module board is missing).\<close>

definition demo_add_piece ::
  "demo_board \<Rightarrow> demo_score \<Rightarrow> demo_piece \<Rightarrow> bool \<times> demo_board \<times> demo_score" where
  "demo_add_piece b s p =
     (if \<not> demo_valid b p then (False, b, s)
      else (let cs = demo_cells p @ Board.more b;
                n = int (length (demo_full_rows cs));
                ls = lines_cleared b + n
            in (True,
                b\<lparr>level := 1 + ls div 10, lines_cleared := ls, Board.more := demo_clear cs\<rparr>,
                (fst s + 100 * n * n * level b, snd s))))"

text \<open>Modelled from the spec: \<^verbatim>\<open>Board.hard_drop\<close>, at most \<open>n\<close> rows (module board is missing).\<close>

fun demo_drop :: "nat \<Rightarrow> demo_board \<Rightarrow> demo_piece \<Rightarrow> int \<times> demo_piece" where
  "demo_drop 0 b p = (0, p)"
| "demo_drop (Suc n) b p =
     (if demo_valid b (p\<lparr>py := py p + 1\<rparr>)
      then (let (d, p') = demo_drop n b (p\<lparr>py := py p + 1\<rparr>) in (d + 1, p'))
      else (0, p))"

text \<open>The offsets of the variant "I", and a piece of that variant at the spawn anchor.\<close>

definition I_table :: "(int \<times> int) list list" where
  "I_table =
     [[(0, 1), (1, 1), (2, 1), (3, 1)],
      [(2, 0), (2, 1), (2, 2), (2, 3)],
      [(0, 2), (1, 2), (2, 2), (3, 2)],
      [(1, 0), (1, 1), (1, 2), (1, 3)]]"

definition demo_spawn :: "(int \<times> int) list list \<Rightarrow> demo_piece" where
  "demo_spawn t = \<lparr>px = 3, py = 0, rotation = 0, \<dots> = t\<rparr>"

text \<open>
  Modelled from the spec: \<^verbatim>\<open>PieceGenerator.get_next_piece\<close>, the queue of upcoming variants
  cycling in a fixed order in place of the shuffle (module pieces is missing).
\<close>

definition demo_next :: "(int \<times> int) list list list \<Rightarrow> demo_piece \<times> (int \<times> int) list list list" where
  "demo_next q = (case q of [] \<Rightarrow> (demo_spawn I_table, []) | t # ts \<Rightarrow> (demo_spawn t, ts @ [t]))"

text \<open>Modelled from the spec: the score manager's top-10 list, best first (module score is missing).\<close>

definition demo_is_highscore :: "demo_score \<Rightarrow> bool" where
  "demo_is_highscore s = (length (snd s) < 10 \<or> list_ex (\<lambda>(n, v, l, ls). v < fst s) (snd s))"

definition demo_add_highscore :: "demo_score \<Rightarrow> ustring \<Rightarrow> int \<Rightarrow> int \<Rightarrow> demo_score" where
  "demo_add_highscore s name lvl ls =
     (fst s,
      take 10 (takeWhile (\<lambda>(n, v, l, k). fst s \<le> v) (snd s) @ [(name, fst s, lvl, ls)]
               @ dropWhile (\<lambda>(n, v, l, k). fst s \<le> v) (snd s)))"

text \<open>
  Modelled from the spec: \<^verbatim>\<open>GameUI.handle_menu_input\<close>, where Up and Down move the selection and
  Return chooses it (module ui is missing; the option names are those main.py compares with).
\<close>

definition demo_options :: "string \<Rightarrow> ustring list" where
  "demo_options m =
     (if m = ''main''
      then [ustr ''Jugar'', ustr ''Rankings'', ustr ''Configuraci'' @ [243] @ ustr ''n'', ustr ''Salir'']
      else [ustr ''Continuar'', ustr ''Reiniciar'', ustr ''Salir al Men'' @ [250]])"

definition demo_menu_input :: "GameUI \<Rightarrow> event \<Rightarrow> string \<Rightarrow> ustring option \<times> GameUI" where
  "demo_menu_input u ev m =
     (let n = int (length (demo_options m))
      in case ev of
           KEYDOWN k t \<Rightarrow>
             if k = K_UP then (None, u\<lparr>selected_option := (selected_option u - 1) mod n\<rparr>)
             else if k = K_DOWN then (None, u\<lparr>selected_option := (selected_option u + 1) mod n\<rparr>)
             else if k = K_RETURN
               then (case drop (nat (selected_option u)) (demo_options m) of
                       [] \<Rightarrow> (None, u)
                     | a # _ \<Rightarrow> (Some a, u))
             else (None, u)
         | _ \<Rightarrow> (None, u))"

text \<open>\<^verbatim>\<open>str.isalnum\<close> on the ASCII range: digits and letters.\<close>

definition demo_alnum :: "nat \<Rightarrow> bool" where
  "demo_alnum c = ((48 \<le> c \<and> c \<le> 57) \<or> (65 \<le> c \<and> c \<le> 90) \<or> (97 \<le> c \<and> c \<le> 122))"

definition demo_env ::
  "((int \<times> int) list list, (int \<times> int) list, (int \<times> int) list list list, demo_score, unit) env" where
  "demo_env =
     \<lparr>is_valid_position = demo_valid,
      add_piece = demo_add_piece,
      hard_drop = demo_drop 40,
      new_board = \<lparr>level = 1, lines_cleared = 0, \<dots> = []\<rparr>,
      get_next_piece = demo_next,
      move_left = (\<lambda>p. p\<lparr>px := px p - 1\<rparr>),
      move_right = (\<lambda>p. p\<lparr>px := px p + 1\<rparr>),
      move_down = (\<lambda>p. p\<lparr>py := py p + 1\<rparr>),
      rotate = (\<lambda>p. p\<lparr>rotation := (rotation p + 1) mod 4\<rparr>),
      reset_score = (\<lambda>s. (0, snd s)),
      is_highscore = demo_is_highscore,
      add_highscore = demo_add_highscore,
      save_highscores = (\<lambda>s. s),
      handle_menu_input = demo_menu_input,
      alnum = demo_alnum\<rparr>"

text \<open>The controller after construction with an empty highscore list, and after "Jugar".\<close>

definition demo_start ::
  "((int \<times> int) list list, (int \<times> int) list, (int \<times> int) list list list, demo_score, unit) Game" where
  "demo_start = Game_init demo_env (0, []) \<lparr>selected_option = 0\<rparr> [I_table]"

definition demo_playing ::
  "((int \<times> int) list list, (int \<times> int) list, (int \<times> int) list list list, demo_score, unit) Game" where
  "demo_playing = handle_events demo_env [(KEYDOWN K_RETURN [13], 0, [I_table])] demo_start"

text \<open>The controller at a finished game whose score enters the (empty) highscore list.\<close>

definition demo_over ::
  "((int \<times> int) list list, (int \<times> int) list, (int \<times> int) list list list, demo_score, unit) Game" where
  "demo_over = demo_playing\<lparr>state := GAME_OVER\<rparr>"

text \<open>
  During play: a board with one locked cell under the spawn rows and the fall counter one
  frame before the interval; and an upright "I" in the leftmost column.
\<close>

definition demo_blocked ::
  "((int \<times> int) list list, (int \<times> int) list, (int \<times> int) list list list, demo_score, unit) Game" where
  "demo_blocked =
     demo_playing\<lparr>board := \<lparr>level = 1, lines_cleared = 0, \<dots> = [(4, 2)]\<rparr>, fall_counter := 29\<rparr>"

definition demo_wall ::
  "((int \<times> int) list list, (int \<times> int) list, (int \<times> int) list list list, demo_score, unit) Game" where
  "demo_wall =
     demo_playing\<lparr>current_piece := \<lparr>px = - 2, py = 5, rotation = 1, \<dots> = I_table\<rparr>\<rparr>"

text \<open>
  A game played to its end: "Jugar", then five times rotate and hard drop, which stacks five
  upright "I" pieces in one column up to the spawn rows.
\<close>

definition demo_moves :: "(event \<times> int \<times> (int \<times> int) list list list) list" where
  "demo_moves =
     (KEYDOWN K_RETURN [13], 0, [I_table])
     # concat (replicate 5 [(KEYDOWN K_UP [], 100, []), (KEYUP K_UP, 120, []),
                            (KEYDOWN K_SPACE [32], 200, [])])"

definition demo_finished ::
  "((int \<times> int) list list, (int \<times> int) list, (int \<times> int) list list list, demo_score, unit) Game" where
  "demo_finished = handle_events demo_env demo_moves demo_start"

text \<open>The same game when the highscore list is full of better scores.\<close>

definition demo_lost ::
  "((int \<times> int) list list, (int \<times> int) list, (int \<times> int) list list list, demo_score, unit) Game" where
  "demo_lost =
     handle_events demo_env demo_moves
       (Game_init demo_env (0, replicate 10 (ustr ''AAA'', 500, 3, 25)) \<lparr>selected_option = 0\<rparr>
          [I_table])"

text \<open>During play: the fall counter one frame before the interval, without and with soft drop.\<close>

definition demo_due ::
  "((int \<times> int) list list, (int \<times> int) list, (int \<times> int) list list list, demo_score, unit) Game" where
  "demo_due = demo_playing\<lparr>fall_counter := 29\<rparr>"

definition demo_soft ::
  "((int \<times> int) list list, (int \<times> int) list, (int \<times> int) list list list, demo_score, unit) Game" where
  "demo_soft = demo_playing\<lparr>soft_drop_active := True, fall_counter := 6\<rparr>"

text \<open>During play, the Left key pressed at tick 0 and held.\<close>

definition demo_left ::
  "((int \<times> int) list list, (int \<times> int) list, (int \<times> int) list list list, demo_score, unit) Game" where
  "demo_left = dispatch demo_env 0 [] (KEYDOWN K_LEFT []) demo_playing"

text \<open>Frames of the main loop: one with a QUIT event, one interrupted, one whose rendering fails.\<close>

definition frame_quit :: "(int \<times> int) list list list frame" where
  "frame_quit = \<lparr>events = [(QUIT, 0, [])], events_exn = None, ticks = 16, update_exn = None, rendering = Rendered\<rparr>"

definition frame_interrupted :: "(int \<times> int) list list list frame" where
  "frame_interrupted =
     \<lparr>events = [], events_exn = Some KeyboardInterrupt, ticks = 16,
      update_exn = None, rendering = Rendered\<rparr>"

definition frame_failing :: "(int \<times> int) list list list frame" where
  "frame_failing = \<lparr>events = [], events_exn = None, ticks = 16, update_exn = None, rendering = RenderRaised Exception\<rparr>"

definition frame_idle :: "(int \<times> int) list list list frame" where
  "frame_idle = \<lparr>events = [], events_exn = None, ticks = 16, update_exn = None, rendering = Rendered\<rparr>"

section \<open>Invariant of the controller\<close>

text \<open>A name of at most 15 accepted characters.\<close>

definition name_ok :: "('k, 'y, 'g, 's, 'x) env \<Rightarrow> ustring \<Rightarrow> bool" where
  "name_ok E s = (length s \<le> 15 \<and> list_all (accepted_char E) s)"

definition controller_inv :: "('k, 'y, 'g, 's, 'x) env \<Rightarrow> ('k, 'y, 'g, 's, 'x) Game \<Rightarrow> bool" where
  "controller_inv E g =
     (name_ok E (player_name g) \<and> key_repeat_delay g = 170 \<and> key_repeat_interval g = 50
      \<and> last_key g \<noteq> Some K_SPACE)"

section \<open>Basic facts\<close>

lemmas key_defs =
  K_BACKSPACE_def K_RETURN_def K_ESCAPE_def K_SPACE_def K_p_def
  K_RIGHT_def K_LEFT_def K_DOWN_def K_UP_def

lemma apply_key_movement_frame:
  "apply_key_movement E k g = g\<lparr>current_piece := current_piece (apply_key_movement E k g)\<rparr>"
  by (simp add: apply_key_movement_def Let_def)

lemma lock_and_spawn_frame:
  "player_name (lock_and_spawn E p g) = player_name g"
  "key_repeat_delay (lock_and_spawn E p g) = key_repeat_delay g"
  "key_repeat_interval (lock_and_spawn E p g) = key_repeat_interval g"
  "last_key (lock_and_spawn E p g) = last_key g"
  "last_key_time (lock_and_spawn E p g) = last_key_time g"
  "fall_counter (lock_and_spawn E p g) = fall_counter g"
  "soft_drop_active (lock_and_spawn E p g) = soft_drop_active g"
  "running (lock_and_spawn E p g) = running g"
  by (simp_all add: lock_and_spawn_def Let_def split: prod.splits)

lemma lock_and_spawn_outcome:
  assumes "add_piece E (board g) (score_manager g) p = (ok, b', s')"
    and "get_next_piece E (piece_generator g) = (p', pg')"
  shows "board (lock_and_spawn E p g) = b'"
    and "score_manager (lock_and_spawn E p g) = s'"
    and "\<not> ok \<Longrightarrow> state (lock_and_spawn E p g) = GAME_OVER"
    and "\<not> ok \<Longrightarrow> current_piece (lock_and_spawn E p g) = p"
    and "\<not> ok \<Longrightarrow> piece_generator (lock_and_spawn E p g) = piece_generator g"
    and "ok \<Longrightarrow> current_piece (lock_and_spawn E p g) = p'"
    and "ok \<Longrightarrow> piece_generator (lock_and_spawn E p g) = pg'"
    and "ok \<Longrightarrow> \<not> is_valid_position E b' p' \<Longrightarrow> state (lock_and_spawn E p g) = GAME_OVER"
    and "ok \<Longrightarrow> is_valid_position E b' p' \<Longrightarrow> state (lock_and_spawn E p g) = state g"
  using assms by (simp_all add: lock_and_spawn_def Let_def)

lemma key_repeat_frame:
  "\<exists>p t. key_repeat E now g = g\<lparr>current_piece := p, last_key_time := t\<rparr>"
proof (cases "last_key g")
  case None
  have "g = g\<lparr>current_piece := current_piece g, last_key_time := last_key_time g\<rparr>" by simp
  with None show ?thesis unfolding key_repeat_def by (metis option.simps(4))
next
  case (Some k)
  obtain p where p: "apply_key_movement E k g = g\<lparr>current_piece := p\<rparr>"
    using apply_key_movement_frame [of E k g] by blast
  have id: "g = g\<lparr>current_piece := current_piece g, last_key_time := last_key_time g\<rparr>" by simp
  show ?thesis
  proof (cases "k \<noteq> 0 \<and> now - last_key_time g > key_repeat_delay g")
    case True
    with Some p have "key_repeat E now g =
        g\<lparr>current_piece := p, last_key_time := now - (key_repeat_interval g - key_repeat_delay g)\<rparr>"
      by (simp add: key_repeat_def)
    then show ?thesis by blast
  next
    case False
    with Some have "key_repeat E now g = g" by (auto simp: key_repeat_def)
    with id show ?thesis by metis
  qed
qed

lemma key_repeat_fields:
  "board (key_repeat E now g) = board g"
  "state (key_repeat E now g) = state g"
  "score_manager (key_repeat E now g) = score_manager g"
  "piece_generator (key_repeat E now g) = piece_generator g"
  "fall_counter (key_repeat E now g) = fall_counter g"
  "soft_drop_active (key_repeat E now g) = soft_drop_active g"
  "last_key (key_repeat E now g) = last_key g"
  "player_name (key_repeat E now g) = player_name g"
  "key_repeat_delay (key_repeat E now g) = key_repeat_delay g"
  "key_repeat_interval (key_repeat E now g) = key_repeat_interval g"
  using key_repeat_frame [of E now g] by auto

lemma restore_xy: "q = p\<lparr>px := a, py := b\<rparr> \<Longrightarrow> q\<lparr>px := px p, py := py p\<rparr> = p"
  by simp

lemma restore_xyr:
  "q = p\<lparr>px := a, py := b, rotation := r\<rparr>
   \<Longrightarrow> q\<lparr>px := px p, py := py p, rotation := rotation p\<rparr> = p"
  by simp

section \<open>Evaluation of the sample instance\<close>

lemmas demo_simps =
  demo_next_def demo_spawn_def demo_valid_def demo_cells_def demo_add_piece_def
  demo_full_rows_def demo_clear_def demo_is_highscore_def demo_add_highscore_def
  demo_menu_input_def demo_options_def demo_alnum_def I_table_def

lemma demo_start_eq:
  "demo_start =
     \<lparr>running = True, state = MENU, player_name = [], input_active = False,
      board = \<lparr>level = 1, lines_cleared = 0, \<dots> = []\<rparr>,
      piece_generator = [I_table],
      current_piece = \<lparr>px = 3, py = 0, rotation = 0, \<dots> = I_table\<rparr>,
      fall_speed = 30, fall_counter = 0, soft_drop_active = False,
      key_repeat_delay = 170, key_repeat_interval = 50, last_key_time = 0,
      last_key = None, score_manager = (0, []), ui = \<lparr>selected_option = 0\<rparr>\<rparr>"
  by (simp add: demo_start_def Game_init_def demo_env_def demo_next_def demo_spawn_def)

lemma demo_playing_eq:
  "demo_playing =
     \<lparr>running = True, state = PLAYING, player_name = [], input_active = False,
      board = \<lparr>level = 1, lines_cleared = 0, \<dots> = []\<rparr>,
      piece_generator = [I_table],
      current_piece = \<lparr>px = 3, py = 0, rotation = 0, \<dots> = I_table\<rparr>,
      fall_speed = 30, fall_counter = 0, soft_drop_active = False,
      key_repeat_delay = 170, key_repeat_interval = 50, last_key_time = 0,
      last_key = None, score_manager = (0, []), ui = \<lparr>selected_option = 0\<rparr>\<rparr>"
  by (simp add: demo_playing_def demo_start_eq dispatch_def handle_menu_events_def init_game_def
      demo_env_def demo_menu_input_def demo_options_def demo_next_def demo_spawn_def ustr_def key_defs)

lemma demo_drop_start:
  "demo_drop 40 \<lparr>level = 1, lines_cleared = 0, \<dots> = []\<rparr>
       \<lparr>px = 3, py = 0, rotation = 0, \<dots> = I_table\<rparr>
     = (18, \<lparr>px = 3, py = 18, rotation = 0, \<dots> = I_table\<rparr>)"
  by code_simp

lemma demo_lock_bottom:
  "demo_add_piece \<lparr>level = 1, lines_cleared = 0, \<dots> = []\<rparr> (0, [])
       \<lparr>px = 3, py = 18, rotation = 0, \<dots> = I_table\<rparr>
     = (True, \<lparr>level = 1, lines_cleared = 0, \<dots> = [(3, 19), (4, 19), (5, 19), (6, 19)]\<rparr>,
        (0, []))"
  by code_simp

lemma demo_lock_top:
  "demo_add_piece \<lparr>level = 1, lines_cleared = 0, \<dots> = [(4, 2)]\<rparr> (0, [])
       \<lparr>px = 3, py = 0, rotation = 0, \<dots> = I_table\<rparr>
     = (True, \<lparr>level = 1, lines_cleared = 0,
                \<dots> = [(3, 1), (4, 1), (5, 1), (6, 1), (4, 2)]\<rparr>, (0, []))"
  by code_simp

section \<open>Lock, spawn and game over\<close>

text \<open>
  Claim C1. When the active piece is locked during play, by the hard-drop key (one dispatched
  event) or by a blocked descent in the frame update, that same step locks the piece, and:
  if \<open>add_piece\<close> reports failure the state is GAME_OVER; otherwise the next piece is
  drawn and becomes the current piece, and the state is GAME_OVER if that piece has no valid
  position on the new board and stays PLAYING if it has.
\<close>

theorem lock_spawn_in_one_step:
  assumes lock: "add_piece E (board g) (score_manager g) p = (ok, b', s')"
    and draw: "get_next_piece E (piece_generator g) = (p', pg')"
    and play: "state g0 = PLAYING"
    and step:
      "(g = g0 \<and> p = snd (hard_drop E (board g) (current_piece g))
          \<and> g' = dispatch E now pg (KEYDOWN K_SPACE u) g0)
       \<or> (g = (key_repeat E now g0)\<lparr>fall_counter := fall_counter g0 + 1\<rparr>
          \<and> fall_interval (level (board g0)) (soft_drop_active g0) \<le> fall_counter g0 + 1
          \<and> \<not> is_valid_position E (board g) (move_down E (current_piece g))
          \<and> p = (move_down E (current_piece g))\<lparr>py := py (current_piece g)\<rparr>
          \<and> g' = update E now g0)"
  shows "board g' = b' \<and> score_manager g' = s'
         \<and> (\<not> ok \<longrightarrow> state g' = GAME_OVER \<and> current_piece g' = p
                        \<and> piece_generator g' = piece_generator g)
         \<and> (ok \<longrightarrow> current_piece g' = p' \<and> piece_generator g' = pg'
                    \<and> (\<not> is_valid_position E b' p' \<longrightarrow> state g' = GAME_OVER)
                    \<and> (is_valid_position E b' p' \<longrightarrow> state g' = PLAYING))"
proof -
  have st: "state g = PLAYING"
    using step play by (auto simp: key_repeat_fields)
  have "g' = lock_and_spawn E p g \<or> g' = (lock_and_spawn E p g)\<lparr>fall_counter := 0\<rparr>"
    using step
  proof
    assume h: "g = g0 \<and> p = snd (hard_drop E (board g) (current_piece g))
          \<and> g' = dispatch E now pg (KEYDOWN K_SPACE u) g0"
    then have "g' = perform_hard_drop E g"
      using play by (simp add: dispatch_def handle_game_events_def key_defs)
    with h show ?thesis by (simp add: perform_hard_drop_def split: prod.splits)
  next
    assume h: "g = (key_repeat E now g0)\<lparr>fall_counter := fall_counter g0 + 1\<rparr>
          \<and> fall_interval (level (board g0)) (soft_drop_active g0) \<le> fall_counter g0 + 1
          \<and> \<not> is_valid_position E (board g) (move_down E (current_piece g))
          \<and> p = (move_down E (current_piece g))\<lparr>py := py (current_piece g)\<rparr>
          \<and> g' = update E now g0"
    then have g: "g = (key_repeat E now g0)\<lparr>fall_counter := fall_counter g0 + 1\<rparr>"
      and iv: "fall_interval (level (board g0)) (soft_drop_active g0) \<le> fall_counter g0 + 1"
      and bl: "\<not> is_valid_position E (board g) (move_down E (current_piece g))"
      and p: "p = (move_down E (current_piece g))\<lparr>py := py (current_piece g)\<rparr>"
      and g': "g' = update E now g0"
      by blast+
    have "update E now g0 = (move_piece_down E g)\<lparr>fall_counter := 0\<rparr>"
      using play iv unfolding g by (simp add: update_def update_game_def Let_def key_repeat_fields)
    moreover have "move_piece_down E g = lock_and_spawn E p g"
      using bl unfolding p by (simp add: move_piece_down_def Let_def)
    ultimately show ?thesis using g' by simp
  qed
  then show ?thesis
    using lock_and_spawn_outcome [OF lock draw] st by (cases ok) auto
qed

theorem lock_spawn_in_one_step_witness:
  "state (dispatch demo_env 0 [] (KEYDOWN K_SPACE [32]) demo_playing) = PLAYING
   \<and> current_piece (dispatch demo_env 0 [] (KEYDOWN K_SPACE [32]) demo_playing) = demo_spawn I_table
   \<and> board (dispatch demo_env 0 [] (KEYDOWN K_SPACE [32]) demo_playing)
       = \<lparr>level = 1, lines_cleared = 0, \<dots> = [(3, 19), (4, 19), (5, 19), (6, 19)]\<rparr>
   \<and> state demo_blocked = PLAYING
   \<and> state (update demo_env 16 demo_blocked) = GAME_OVER"
proof -
  have play: "state demo_playing = PLAYING" by (simp add: demo_playing_eq)
  have lock: "add_piece demo_env (board demo_playing) (score_manager demo_playing)
                \<lparr>px = 3, py = 18, rotation = 0, \<dots> = I_table\<rparr>
              = (True, \<lparr>level = 1, lines_cleared = 0, \<dots> = [(3, 19), (4, 19), (5, 19), (6, 19)]\<rparr>,
                 (0, []))"
    by (simp add: demo_playing_eq demo_env_def demo_lock_bottom)
  have draw: "get_next_piece demo_env (piece_generator demo_playing) = (demo_spawn I_table, [I_table])"
    by (simp add: demo_playing_eq demo_env_def demo_simps)
  have ok: "is_valid_position demo_env
              \<lparr>level = 1, lines_cleared = 0, \<dots> = [(3, 19), (4, 19), (5, 19), (6, 19)]\<rparr>
              (demo_spawn I_table)"
    by (simp add: demo_env_def demo_simps)
  have drop: "snd (hard_drop demo_env (board demo_playing) (current_piece demo_playing))
              = \<lparr>px = 3, py = 18, rotation = 0, \<dots> = I_table\<rparr>"
    by (simp add: demo_playing_eq demo_env_def demo_drop_start)
  have a: "state (dispatch demo_env 0 [] (KEYDOWN K_SPACE [32]) demo_playing) = PLAYING
   \<and> current_piece (dispatch demo_env 0 [] (KEYDOWN K_SPACE [32]) demo_playing) = demo_spawn I_table
   \<and> board (dispatch demo_env 0 [] (KEYDOWN K_SPACE [32]) demo_playing)
       = \<lparr>level = 1, lines_cleared = 0, \<dots> = [(3, 19), (4, 19), (5, 19), (6, 19)]\<rparr>"
    using lock_spawn_in_one_step [OF lock draw play, of "dispatch demo_env 0 [] (KEYDOWN K_SPACE [32]) demo_playing" 0 "[]" "[32]"]
      drop ok by simp
  have play2: "state demo_blocked = PLAYING" by (simp add: demo_blocked_def demo_playing_eq)
  have kr: "key_repeat demo_env 16 demo_blocked = demo_blocked"
    by (simp add: key_repeat_def demo_blocked_def demo_playing_eq)
  have g: "(key_repeat demo_env 16 demo_blocked)\<lparr>fall_counter := fall_counter demo_blocked + 1\<rparr>
           = demo_blocked\<lparr>fall_counter := 30\<rparr>"
    unfolding kr by (simp add: demo_blocked_def demo_playing_eq)
  have lock2: "add_piece demo_env (board (demo_blocked\<lparr>fall_counter := 30\<rparr>))
                 (score_manager (demo_blocked\<lparr>fall_counter := 30\<rparr>))
                \<lparr>px = 3, py = 0, rotation = 0, \<dots> = I_table\<rparr>
              = (True, \<lparr>level = 1, lines_cleared = 0,
                        \<dots> = [(3, 1), (4, 1), (5, 1), (6, 1), (4, 2)]\<rparr>, (0, []))"
    by (simp add: demo_blocked_def demo_playing_eq demo_env_def demo_lock_top)
  have draw2: "get_next_piece demo_env (piece_generator (demo_blocked\<lparr>fall_counter := 30\<rparr>))
               = (demo_spawn I_table, [I_table])"
    by (simp add: demo_blocked_def demo_playing_eq demo_env_def demo_simps)
  have bad: "\<not> is_valid_position demo_env
              \<lparr>level = 1, lines_cleared = 0, \<dots> = [(3, 1), (4, 1), (5, 1), (6, 1), (4, 2)]\<rparr>
              (demo_spawn I_table)"
    by (simp add: demo_env_def demo_simps)
  have blocked: "\<not> is_valid_position demo_env (board (demo_blocked\<lparr>fall_counter := 30\<rparr>))
                  (move_down demo_env (current_piece (demo_blocked\<lparr>fall_counter := 30\<rparr>)))"
    by (simp add: demo_blocked_def demo_playing_eq demo_env_def demo_simps)
  have p: "(move_down demo_env (current_piece (demo_blocked\<lparr>fall_counter := 30\<rparr>)))
             \<lparr>py := py (current_piece (demo_blocked\<lparr>fall_counter := 30\<rparr>))\<rparr>
           = \<lparr>px = 3, py = 0, rotation = 0, \<dots> = I_table\<rparr>"
    by (simp add: demo_blocked_def demo_playing_eq demo_env_def)
  have iv: "fall_interval (level (board demo_blocked)) (soft_drop_active demo_blocked)
            \<le> fall_counter demo_blocked + 1"
    by (simp add: demo_blocked_def demo_playing_eq fall_interval_def)
  have b: "state (update demo_env 16 demo_blocked) = GAME_OVER"
    using lock_spawn_in_one_step [OF lock2 draw2 play2, of "update demo_env 16 demo_blocked" 16 "[]" "[]"]
      g blocked p iv bad by simp
  show ?thesis using a play2 b by simp
qed

section \<open>Tentative movement\<close>

text \<open>
  Claim C2. If the placement after a left move, right move or rotation is not a valid
  position, the x and y of the piece, and for a rotation its rotation index, are what they
  were before the attempt; and when the methods of the piece change only what their name
  says (position; position and rotation index), the controller state is unchanged.
\<close>

theorem invalid_attempt_reverted:
  assumes attempt:
      "key = K_LEFT \<and> p1 = move_left E (current_piece g)
       \<or> key = K_RIGHT \<and> p1 = move_right E (current_piece g)
       \<or> key = K_UP \<and> p1 = rotate E (current_piece g)"
    and invalid: "\<not> is_valid_position E (board g) p1"
  shows "px (current_piece (apply_key_movement E key g)) = px (current_piece g)
         \<and> py (current_piece (apply_key_movement E key g)) = py (current_piece g)
         \<and> (key = K_UP \<longrightarrow>
              rotation (current_piece (apply_key_movement E key g)) = rotation (current_piece g))
         \<and> ((\<forall>p. move_left E p = p\<lparr>px := px (move_left E p), py := py (move_left E p)\<rparr>)
            \<and> (\<forall>p. move_right E p = p\<lparr>px := px (move_right E p), py := py (move_right E p)\<rparr>)
            \<and> (\<forall>p. rotate E p = p\<lparr>px := px (rotate E p), py := py (rotate E p),
                                     rotation := rotation (rotate E p)\<rparr>)
            \<longrightarrow> apply_key_movement E key g = g)"
proof -
  have p1: "p1 = (if key = K_LEFT then move_left E (current_piece g)
                else if key = K_RIGHT then move_right E (current_piece g)
                else if key = K_UP then rotate E (current_piece g)
                else current_piece g)"
    using attempt by (auto simp: key_defs)
  have res: "current_piece (apply_key_movement E key g) =
          (if key = K_UP then p1\<lparr>px := px (current_piece g), py := py (current_piece g),
                                 rotation := rotation (current_piece g)\<rparr>
           else p1\<lparr>px := px (current_piece g), py := py (current_piece g)\<rparr>)"
    using invalid unfolding p1 by (simp add: apply_key_movement_def Let_def)
  have g: "apply_key_movement E key g = g\<lparr>current_piece := current_piece (apply_key_movement E key g)\<rparr>"
    by (rule apply_key_movement_frame)
  have unchanged: "apply_key_movement E key g = g"
    if fr: "(\<forall>p. move_left E p = p\<lparr>px := px (move_left E p), py := py (move_left E p)\<rparr>)
            \<and> (\<forall>p. move_right E p = p\<lparr>px := px (move_right E p), py := py (move_right E p)\<rparr>)
            \<and> (\<forall>p. rotate E p = p\<lparr>px := px (rotate E p), py := py (rotate E p),
                                     rotation := rotation (rotate E p)\<rparr>)"
  proof -
    from fr have l: "move_left E (current_piece g) = (current_piece g)
        \<lparr>px := px (move_left E (current_piece g)), py := py (move_left E (current_piece g))\<rparr>"
      by blast
    from fr have r: "move_right E (current_piece g) = (current_piece g)
        \<lparr>px := px (move_right E (current_piece g)), py := py (move_right E (current_piece g))\<rparr>"
      by blast
    from fr have u: "rotate E (current_piece g) = (current_piece g)
        \<lparr>px := px (rotate E (current_piece g)), py := py (rotate E (current_piece g)),
         rotation := rotation (rotate E (current_piece g))\<rparr>"
      by blast
    have "current_piece (apply_key_movement E key g) = current_piece g"
      using attempt
    proof (elim disjE conjE)
      assume k: "key = K_LEFT" and m: "p1 = move_left E (current_piece g)"
      have "key \<noteq> K_UP" using k by (simp add: key_defs)
      then show ?thesis using res restore_xy [OF l] m by simp
    next
      assume k: "key = K_RIGHT" and m: "p1 = move_right E (current_piece g)"
      have "key \<noteq> K_UP" using k by (simp add: key_defs)
      then show ?thesis using res restore_xy [OF r] m by simp
    next
      assume k: "key = K_UP" and m: "p1 = rotate E (current_piece g)"
      show ?thesis using res restore_xyr [OF u] m k by simp
    qed
    with g show ?thesis by simp
  qed
  have restored: "px (current_piece (apply_key_movement E key g)) = px (current_piece g)
         \<and> py (current_piece (apply_key_movement E key g)) = py (current_piece g)
         \<and> (key = K_UP \<longrightarrow>
              rotation (current_piece (apply_key_movement E key g)) = rotation (current_piece g))"
    using res by auto
  show ?thesis using restored unchanged by blast
qed

theorem invalid_attempt_reverted_witness:
  "\<not> is_valid_position demo_env (board demo_wall) (rotate demo_env (current_piece demo_wall))
   \<and> apply_key_movement demo_env K_UP demo_wall = demo_wall
   \<and> px (current_piece (apply_key_movement demo_env K_UP demo_wall)) = - 2
   \<and> py (current_piece (apply_key_movement demo_env K_UP demo_wall)) = 5
   \<and> rotation (current_piece (apply_key_movement demo_env K_UP demo_wall)) = 1"
proof -
  have inv: "\<not> is_valid_position demo_env (board demo_wall) (rotate demo_env (current_piece demo_wall))"
    by (simp add: demo_wall_def demo_playing_eq demo_env_def demo_simps)
  have att: "K_UP = K_LEFT \<and> rotate demo_env (current_piece demo_wall) = move_left demo_env (current_piece demo_wall)
       \<or> K_UP = K_RIGHT \<and> rotate demo_env (current_piece demo_wall) = move_right demo_env (current_piece demo_wall)
       \<or> K_UP = K_UP \<and> rotate demo_env (current_piece demo_wall) = rotate demo_env (current_piece demo_wall)"
    by simp
  have fr: "(\<forall>p. move_left demo_env p = p\<lparr>px := px (move_left demo_env p), py := py (move_left demo_env p)\<rparr>)
            \<and> (\<forall>p. move_right demo_env p = p\<lparr>px := px (move_right demo_env p), py := py (move_right demo_env p)\<rparr>)
            \<and> (\<forall>p. rotate demo_env p = p\<lparr>px := px (rotate demo_env p), py := py (rotate demo_env p),
                                     rotation := rotation (rotate demo_env p)\<rparr>)"
    by (simp add: demo_env_def)
  have cur: "px (current_piece demo_wall) = - 2 \<and> py (current_piece demo_wall) = 5
             \<and> rotation (current_piece demo_wall) = 1"
    by (simp add: demo_wall_def)
  show ?thesis using invalid_attempt_reverted [OF att inv] fr inv cur by simp
qed

section \<open>Gravity\<close>

text \<open>
  Claim C3. During play a frame adds exactly 1 to the fall counter. The fall interval is
  max(5, 30 - (level - 1)), divided by 4 (integer division) while soft drop is held. When
  the incremented counter reaches the interval, the piece attempts to move down one row
  (it is moved when the row below is a valid position) and the counter is 0 afterwards,
  whatever the attempt did; below the interval the frame changes the counter only (after
  the repetition of the held key).
\<close>

theorem gravity_timing:
  assumes play: "state g = PLAYING"
    and iv: "iv = (if soft_drop_active g then max 5 (30 - (level (board g) - 1)) div 4
                   else max 5 (30 - (level (board g) - 1)))"
    and g1: "g1 = (key_repeat E now g)\<lparr>fall_counter := fall_counter g + 1\<rparr>"
  shows "(fall_counter g + 1 < iv \<longrightarrow> update E now g = g1)
         \<and> (iv \<le> fall_counter g + 1 \<longrightarrow>
              update E now g = (move_piece_down E g1)\<lparr>fall_counter := 0\<rparr>
              \<and> fall_counter (update E now g) = 0
              \<and> (is_valid_position E (board g1) (move_down E (current_piece g1)) \<longrightarrow>
                   current_piece (update E now g) = move_down E (current_piece g1)))"
proof -
  have fi: "fall_interval (level (board (key_repeat E now g))) (soft_drop_active (key_repeat E now g)) = iv"
    unfolding iv by (simp add: fall_interval_def key_repeat_fields)
  have fc: "fall_counter (key_repeat E now g) = fall_counter g"
    by (simp add: key_repeat_fields)
  have low: "update E now g = g1" if "fall_counter g + 1 < iv"
    using that play fi fc unfolding g1 by (simp add: update_def update_game_def Let_def)
  have high: "update E now g = (move_piece_down E g1)\<lparr>fall_counter := 0\<rparr>" if "iv \<le> fall_counter g + 1"
    using that play fi fc unfolding g1 by (simp add: update_def update_game_def Let_def)
  have mv: "current_piece (move_piece_down E g1) = move_down E (current_piece g1)"
    if "is_valid_position E (board g1) (move_down E (current_piece g1))"
    using that by (simp add: move_piece_down_def Let_def)
  show ?thesis using low high mv by simp
qed

theorem gravity_timing_witness:
  "state demo_playing = PLAYING
   \<and> fall_counter (update demo_env 16 demo_playing) = 1
   \<and> py (current_piece (update demo_env 16 demo_playing)) = 0
   \<and> fall_counter demo_due = 29
   \<and> fall_counter (update demo_env 16 demo_due) = 0
   \<and> py (current_piece (update demo_env 16 demo_due)) = 1
   \<and> fall_counter demo_soft = 6
   \<and> fall_counter (update demo_env 16 demo_soft) = 0
   \<and> py (current_piece (update demo_env 16 demo_soft)) = 1"
proof -
  have p1: "state demo_playing = PLAYING" by (simp add: demo_playing_eq)
  have p2: "state demo_due = PLAYING" by (simp add: demo_due_def demo_playing_eq)
  have p3: "state demo_soft = PLAYING" by (simp add: demo_soft_def demo_playing_eq)
  have k1: "key_repeat demo_env 16 demo_playing = demo_playing"
    by (simp add: key_repeat_def demo_playing_eq)
  have k2: "key_repeat demo_env 16 demo_due = demo_due"
    by (simp add: key_repeat_def demo_due_def demo_playing_eq)
  have k3: "key_repeat demo_env 16 demo_soft = demo_soft"
    by (simp add: key_repeat_def demo_soft_def demo_playing_eq)
  have i1: "fall_counter demo_playing + 1
            < (if soft_drop_active demo_playing
               then max 5 (30 - (level (board demo_playing) - 1)) div 4
               else max 5 (30 - (level (board demo_playing) - 1)))"
    by (simp add: demo_playing_eq)
  have "update demo_env 16 demo_playing
        = demo_playing\<lparr>fall_counter := fall_counter demo_playing + 1\<rparr>"
    using gravity_timing [OF p1 refl refl, of demo_env 16, unfolded k1] i1 by blast
  then have a: "fall_counter (update demo_env 16 demo_playing) = 1
           \<and> py (current_piece (update demo_env 16 demo_playing)) = 0"
    by (simp add: demo_playing_eq)
  have i2: "(if soft_drop_active demo_due
               then max 5 (30 - (level (board demo_due) - 1)) div 4
               else max 5 (30 - (level (board demo_due) - 1)))
            \<le> fall_counter demo_due + 1"
    by (simp add: demo_due_def demo_playing_eq)
  have v2: "is_valid_position demo_env
              (board (demo_due\<lparr>fall_counter := fall_counter demo_due + 1\<rparr>))
              (move_down demo_env (current_piece (demo_due\<lparr>fall_counter := fall_counter demo_due + 1\<rparr>)))"
    by (simp add: demo_due_def demo_playing_eq demo_env_def demo_simps)
  have "fall_counter (update demo_env 16 demo_due) = 0
        \<and> current_piece (update demo_env 16 demo_due)
            = move_down demo_env (current_piece (demo_due\<lparr>fall_counter := fall_counter demo_due + 1\<rparr>))"
    using gravity_timing [OF p2 refl refl, of demo_env 16, unfolded k2] i2 v2 by blast
  then have b: "fall_counter (update demo_env 16 demo_due) = 0
           \<and> py (current_piece (update demo_env 16 demo_due)) = 1"
    by (simp add: demo_due_def demo_playing_eq demo_env_def)
  have i3: "(if soft_drop_active demo_soft
               then max 5 (30 - (level (board demo_soft) - 1)) div 4
               else max 5 (30 - (level (board demo_soft) - 1)))
            \<le> fall_counter demo_soft + 1"
    by (simp add: demo_soft_def demo_playing_eq)
  have v3: "is_valid_position demo_env
              (board (demo_soft\<lparr>fall_counter := fall_counter demo_soft + 1\<rparr>))
              (move_down demo_env (current_piece (demo_soft\<lparr>fall_counter := fall_counter demo_soft + 1\<rparr>)))"
    by (simp add: demo_soft_def demo_playing_eq demo_env_def demo_simps)
  have "fall_counter (update demo_env 16 demo_soft) = 0
        \<and> current_piece (update demo_env 16 demo_soft)
            = move_down demo_env (current_piece (demo_soft\<lparr>fall_counter := fall_counter demo_soft + 1\<rparr>))"
    using gravity_timing [OF p3 refl refl, of demo_env 16, unfolded k3] i3 v3 by blast
  then have c: "fall_counter (update demo_env 16 demo_soft) = 0
           \<and> py (current_piece (update demo_env 16 demo_soft)) = 1"
    by (simp add: demo_soft_def demo_playing_eq demo_env_def)
  show ?thesis using p1 a b c by (simp add: demo_due_def demo_soft_def)
qed

section \<open>Key repetition\<close>

lemma key_repeat_period:
  assumes "key_repeat_delay g = 170" and "key_repeat_interval g = 50"
    and "last_key g = Some k" and "k \<noteq> 0" and "t - last_key_time g > 170"
  shows "key_repeat E t g = (apply_key_movement E k g)\<lparr>last_key_time := t + 120\<rparr>"
    and "t' - t \<le> 290 \<Longrightarrow> key_repeat E t' (key_repeat E t g) = key_repeat E t g"
    and "t' - t > 290 \<Longrightarrow> key_repeat E t' (key_repeat E t g)
           = (apply_key_movement E k (key_repeat E t g))\<lparr>last_key_time := t' + 120\<rparr>"
proof -
  show a: "key_repeat E t g = (apply_key_movement E k g)\<lparr>last_key_time := t + 120\<rparr>"
    using assms by (simp add: key_repeat_def)
  have f: "last_key (key_repeat E t g) = Some k" "key_repeat_delay (key_repeat E t g) = 170"
    "key_repeat_interval (key_repeat E t g) = 50" "last_key_time (key_repeat E t g) = t + 120"
    using assms by (simp_all add: key_repeat_fields) (simp add: a)
  show "t' - t \<le> 290 \<Longrightarrow> key_repeat E t' (key_repeat E t g) = key_repeat E t g"
    using f by (simp add: key_repeat_def [of E t' "key_repeat E t g"])
  show "t' - t > 290 \<Longrightarrow> key_repeat E t' (key_repeat E t g)
           = (apply_key_movement E k (key_repeat E t g))\<lparr>last_key_time := t' + 120\<rparr>"
    using f assms(4) by (simp add: key_repeat_def [of E t' "key_repeat E t g"])
qed

text \<open>
  Claim C4, at a concrete input. Left is pressed at tick 0 and held: the piece moves once at
  the key-down (column 3 to 2) and once at the update of tick 171 (to column 1), which sets
  the recorded time to 171 - (50 - 170) = 291. The column to the left stays free, yet the
  updates at ticks 222 and 461 do not move the piece; the next repetition is at tick 462,
  more than 290 ms (not 50 ms) after the previous one.
\<close>

theorem key_repeat_period_observed:
  "last_key demo_left = Some K_LEFT \<and> last_key_time demo_left = 0
   \<and> px (current_piece demo_playing) = 3
   \<and> px (current_piece demo_left) = 2
   \<and> px (current_piece (update demo_env 171 demo_left)) = 1
   \<and> last_key_time (update demo_env 171 demo_left) = 291
   \<and> last_key (update demo_env 171 demo_left) = Some K_LEFT
   \<and> is_valid_position demo_env (board (update demo_env 171 demo_left))
        (move_left demo_env (current_piece (update demo_env 171 demo_left)))
   \<and> px (current_piece (update demo_env 222 (update demo_env 171 demo_left))) = 1
   \<and> px (current_piece (update demo_env 461 (update demo_env 222 (update demo_env 171 demo_left)))) = 1
   \<and> px (current_piece (update demo_env 462 (update demo_env 461
            (update demo_env 222 (update demo_env 171 demo_left))))) = 0"
  by code_simp

section \<open>Leaving the GameOver state\<close>

lemma return_with_highscore:
  "state g = GAME_OVER \<Longrightarrow> is_highscore E (score_manager g)
   \<Longrightarrow> dispatch E now pg (KEYDOWN K_RETURN u) g
       = g\<lparr>score_manager :=
              add_highscore E (score_manager g)
                (if player_name g \<noteq> [] then player_name g else Anonimo)
                (level (board g)) (lines_cleared (board g)),
            state := MENU, ui := (ui g)\<lparr>selected_option := 0\<rparr>, player_name := []\<rparr>"
  by (simp add: dispatch_def handle_game_over_events_def)

lemma game_over_without_highscore:
  "state g = GAME_OVER \<Longrightarrow> \<not> is_highscore E (score_manager g) \<Longrightarrow> ev \<noteq> QUIT
   \<Longrightarrow> handle_events E [(ev, now, pg)] g = g"
  by (simp add: dispatch_def handle_game_over_events_def)

text \<open>
  Claim C5, at a concrete input. A game has ended with score 0 while the highscore list holds
  ten better scores: Return in the GameOver state changes nothing, and the state stays
  GameOver.
\<close>

theorem return_ignored_without_highscore:
  "state demo_lost = GAME_OVER
   \<and> \<not> is_highscore demo_env (score_manager demo_lost)
   \<and> dispatch demo_env 0 [] (KEYDOWN K_RETURN [13]) demo_lost = demo_lost
   \<and> state (dispatch demo_env 0 [] (KEYDOWN K_RETURN [13]) demo_lost) = GAME_OVER"
  by code_simp

text \<open>
  Claim C9. Return in the GameOver state with a qualifying score and an empty name buffer
  stores the highscore under the source's literal name (An, o with acute accent, nimo;
  the accented letter is code point 243), with the level and lines of the board.
\<close>

theorem empty_name_stored_as_Anonimo:
  assumes "state g = GAME_OVER"
    and "is_highscore E (score_manager g)"
    and "player_name g = []"
  shows "score_manager (dispatch E now pg (KEYDOWN K_RETURN u) g)
           = add_highscore E (score_manager g) Anonimo (level (board g)) (lines_cleared (board g))
         \<and> Anonimo = [65, 110, 243, 110, 105, 109, 111]"
  using assms by (simp add: dispatch_def handle_game_over_events_def Anonimo_def ustr_def)

theorem empty_name_stored_as_Anonimo_witness:
  "state demo_over = GAME_OVER \<and> is_highscore demo_env (score_manager demo_over)
   \<and> player_name demo_over = []
   \<and> score_manager (dispatch demo_env 0 [] (KEYDOWN K_RETURN [13]) demo_over)
       = (0, [([65, 110, 243, 110, 105, 109, 111], 0, 1, 0)])"
proof -
  have a: "state demo_over = GAME_OVER" by (simp add: demo_over_def)
  have b: "is_highscore demo_env (score_manager demo_over)"
    by (simp add: demo_over_def demo_playing_eq demo_env_def demo_is_highscore_def)
  have c: "player_name demo_over = []" by (simp add: demo_over_def demo_playing_eq)
  have d: "add_highscore demo_env (score_manager demo_over) [65, 110, 243, 110, 105, 109, 111]
             (level (board demo_over)) (lines_cleared (board demo_over))
           = (0, [([65, 110, 243, 110, 105, 109, 111], 0, 1, 0)])"
    by (simp add: demo_over_def demo_playing_eq demo_env_def demo_add_highscore_def)
  show ?thesis using empty_name_stored_as_Anonimo [OF a b c, of 0 "[]" "[13]"] a b c d by simp
qed

section \<open>Preservation of the invariant\<close>

lemma name_ok_append:
  assumes "name_ok E n" and "length u \<le> 1" and "length n < 15"
    and "isalnum E u \<or> str_in u (ustr '' -_'')"
  shows "name_ok E (n @ u)"
proof (cases u)
  case Nil
  with assms(1) show ?thesis by simp
next
  case (Cons c cs)
  with assms(2) have u: "u = [c]" by simp
  have "accepted_char E c"
    using assms(4) unfolding u by (auto simp: isalnum_def ustr_def accepted_char_def)
  with assms(1,3) show ?thesis unfolding u by (simp add: name_ok_def)
qed

lemma name_ok_butlast: "name_ok E n \<Longrightarrow> name_ok E (butlast n)"
  by (auto simp: name_ok_def list_all_iff dest: in_set_butlastD)

lemma accepted_iff:
  "length u \<le> 1 \<Longrightarrow> (isalnum E u \<or> str_in u (ustr '' -_'')) = (\<forall>c\<in>set u. accepted_char E c)"
proof (cases u)
  case Nil
  then show ?thesis by (simp add: ustr_def)
next
  case (Cons c cs)
  assume "length u \<le> 1"
  with Cons have u: "u = [c]" by simp
  show ?thesis unfolding u by (auto simp: isalnum_def ustr_def accepted_char_def)
qed

lemma inv_same:
  assumes "controller_inv E g"
    and "player_name g' = player_name g" and "key_repeat_delay g' = key_repeat_delay g"
    and "key_repeat_interval g' = key_repeat_interval g" and "last_key g' = last_key g"
  shows "controller_inv E g'"
  using assms by (simp add: controller_inv_def)

lemma inv_init_game: "controller_inv E g \<Longrightarrow> controller_inv E ((init_game E pg g)\<lparr>state := st\<rparr>)"
  by (simp add: controller_inv_def init_game_def split: prod.splits)

lemma inv_menu: "controller_inv E g \<Longrightarrow> controller_inv E (handle_menu_events E pg ev g)"
proof -
  assume i: "controller_inv E g"
  obtain a u where h: "handle_menu_input E (ui g) ev ''main'' = (a, u)" by (cases "handle_menu_input E (ui g) ev ''main''")
  have i1: "controller_inv E (g\<lparr>ui := u\<rparr>)" using i by (simp add: controller_inv_def)
  show ?thesis
    using inv_init_game [OF i1, where pg = pg and st = PLAYING] i1 h
    by (simp add: handle_menu_events_def Let_def controller_inv_def)
qed

lemma inv_pause: "controller_inv E g \<Longrightarrow> controller_inv E (handle_pause_events E pg ev g)"
proof -
  assume i: "controller_inv E g"
  obtain a u where h: "handle_menu_input E (ui g) ev ''pause'' = (a, u)" by (cases "handle_menu_input E (ui g) ev ''pause''")
  have i1: "controller_inv E (g\<lparr>ui := u\<rparr>)" using i by (simp add: controller_inv_def)
  show ?thesis
    using inv_init_game [OF i1, where pg = pg and st = PLAYING] i1 h
    by (simp add: handle_pause_events_def Let_def controller_inv_def)
qed

lemma inv_apply_key: "controller_inv E g \<Longrightarrow> controller_inv E (apply_key_movement E k g)"
  by (rule inv_same [where g = g]) (simp_all add: apply_key_movement_def Let_def)

lemma inv_lock: "controller_inv E g \<Longrightarrow> controller_inv E (lock_and_spawn E p g)"
  by (rule inv_same [where g = g]) (simp_all add: lock_and_spawn_frame)

lemma inv_game: "controller_inv E g \<Longrightarrow> controller_inv E (handle_game_events E now ev g)"
proof (cases ev)
  case (KEYDOWN key u)
  assume i: "controller_inv E g"
  have a: "controller_inv E (perform_hard_drop E g)"
    using inv_lock [OF i] by (simp add: perform_hard_drop_def split: prod.splits)
  have b: "controller_inv E (apply_key_movement E key (g\<lparr>last_key := Some key, last_key_time := now\<rparr>))"
    if "key \<noteq> K_SPACE"
    by (rule inv_apply_key) (use i that in \<open>simp add: controller_inv_def\<close>)
  have c: "controller_inv E (apply_key_movement E key
              (g\<lparr>soft_drop_active := True, last_key := Some key, last_key_time := now\<rparr>))"
    if "key \<noteq> K_SPACE"
    by (rule inv_apply_key) (use i that in \<open>simp add: controller_inv_def\<close>)
  consider "key = K_p" | "key = K_ESCAPE" | "key = K_SPACE"
    | "key \<noteq> K_p" "key \<noteq> K_ESCAPE" "key \<noteq> K_SPACE" by blast
  then show ?thesis
  proof cases
    case 1
    with KEYDOWN i show ?thesis by (simp add: handle_game_events_def controller_inv_def)
  next
    case 2
    with KEYDOWN i show ?thesis by (simp add: handle_game_events_def controller_inv_def)
  next
    case 3
    with KEYDOWN a show ?thesis by (simp add: handle_game_events_def key_defs)
  next
    case 4
    with KEYDOWN b c show ?thesis by (auto simp: handle_game_events_def Let_def)
  qed
next
  case (KEYUP key)
  assume "controller_inv E g"
  with KEYUP show ?thesis by (simp add: handle_game_events_def Let_def controller_inv_def)
qed (simp_all add: handle_game_events_def)

lemma inv_game_over:
  "controller_inv E g \<Longrightarrow> wf_event ev \<Longrightarrow> controller_inv E (handle_game_over_events E ev g)"
proof (cases ev)
  case (KEYDOWN key u)
  assume i: "controller_inv E g" and "wf_event ev"
  with KEYDOWN have u: "length u \<le> 1" by simp
  have n: "name_ok E (player_name g)" using i by (simp add: controller_inv_def)
  have e: "name_ok E []" by (simp add: name_ok_def)
  show ?thesis
    using KEYDOWN i e name_ok_butlast [OF n] name_ok_append [OF n u]
    by (simp add: handle_game_over_events_def controller_inv_def)
qed (simp_all add: handle_game_over_events_def)

lemma inv_dispatch:
  "controller_inv E g \<Longrightarrow> wf_event ev \<Longrightarrow> controller_inv E (dispatch E now pg ev g)"
  using inv_menu [of E g pg ev] inv_pause [of E g pg ev] inv_game [of E g now ev]
    inv_game_over [of E g ev]
  by (cases "state g")
    (simp_all add: dispatch_def handle_rankings_events_def handle_settings_events_def
      controller_inv_def split: event.splits)

lemma inv_move_down: "controller_inv E g \<Longrightarrow> controller_inv E (move_piece_down E g)"
  using inv_lock [of E g] by (simp add: move_piece_down_def Let_def controller_inv_def)

lemma inv_update: "controller_inv E g \<Longrightarrow> controller_inv E (update E now g)"
proof -
  assume i: "controller_inv E g"
  have k: "controller_inv E (key_repeat E now g)"
    by (rule inv_same [OF i]) (simp_all add: key_repeat_fields)
  have k1: "controller_inv E ((key_repeat E now g)\<lparr>fall_counter := c\<rparr>)" for c
    using k by (simp add: controller_inv_def)
  have "controller_inv E ((move_piece_down E ((key_repeat E now g)\<lparr>fall_counter := c\<rparr>))\<lparr>fall_counter := 0\<rparr>)" for c
    using inv_move_down [OF k1 [of c]] by (simp add: controller_inv_def)
  with k1 i show ?thesis by (simp add: update_def update_game_def Let_def)
qed

lemma reachable_inv: "reachable E g \<Longrightarrow> controller_inv E g"
proof (induction rule: reachable.induct)
  case (start sm u pg)
  show ?case by (simp add: controller_inv_def Game_init_def name_ok_def split: prod.splits)
next
  case (handled g ev now pg)
  then show ?case using inv_dispatch [of E g ev now pg] by (simp add: controller_inv_def)
next
  case (updated g now)
  then show ?case by (simp add: inv_update)
qed

lemma reachable_handle_events:
  "reachable E g \<Longrightarrow> list_all (\<lambda>e. wf_event (fst e)) evs
   \<Longrightarrow> reachable E (handle_events E evs g)"
proof (induction evs arbitrary: g)
  case Nil
  then show ?case by simp
next
  case (Cons e rest)
  obtain ev now pg where e: "e = (ev, now, pg)" by (cases e)
  have wf: "wf_event ev" and wfs: "list_all (\<lambda>e. wf_event (fst e)) rest"
    using Cons.prems(2) e by simp_all
  have one: "reachable E (handle_events E [(ev, now, pg)] g)"
    by (rule reachable.handled [OF Cons.prems(1) wf])
  show ?case
  proof (cases "ev = QUIT")
    case True
    with one e show ?thesis by simp
  next
    case False
    with one have "reachable E (dispatch E now pg ev g)" by simp
    from Cons.IH [OF this wfs] False e show ?thesis by simp
  qed
qed

lemma demo_start_reachable: "reachable demo_env demo_start"
  unfolding demo_start_def by (rule reachable.start)

lemma demo_playing_reachable: "reachable demo_env demo_playing"
  unfolding demo_playing_def by (rule reachable.handled [OF demo_start_reachable]) simp

lemma demo_moves_wf: "list_all (\<lambda>e. wf_event (fst e)) demo_moves"
  by code_simp

lemma demo_finished_reachable: "reachable demo_env demo_finished"
  unfolding demo_finished_def
  by (rule reachable_handle_events [OF demo_start_reachable demo_moves_wf])

lemma demo_finished_facts:
  "state demo_finished = GAME_OVER"
  "is_highscore demo_env (score_manager demo_finished)"
  "player_name demo_finished = []"
  by code_simp+

section \<open>The name buffer\<close>

text \<open>
  Claim C6. In every reachable controller state the name buffer holds at most 15 characters,
  each alphanumeric, a space, a hyphen or an underscore. In the GameOver state with a
  qualifying score, a key-down (other than Return and Backspace) appends its character
  exactly when the buffer is shorter than 15 and the character is accepted, and Backspace
  removes the last character.
\<close>

theorem name_buffer_invariant:
  assumes "reachable E g"
  shows "length (player_name g) \<le> 15 \<and> (\<forall>c\<in>set (player_name g). accepted_char E c)
     \<and> (state g = GAME_OVER \<and> is_highscore E (score_manager g) \<and> k \<noteq> K_RETURN
          \<and> k \<noteq> K_BACKSPACE \<and> length u \<le> 1 \<longrightarrow>
          player_name (dispatch E now pg (KEYDOWN k u) g)
            = (if length (player_name g) < 15 \<and> (\<forall>c\<in>set u. accepted_char E c)
               then player_name g @ u else player_name g))
     \<and> (state g = GAME_OVER \<and> is_highscore E (score_manager g) \<longrightarrow>
          player_name (dispatch E now pg (KEYDOWN K_BACKSPACE u) g) = butlast (player_name g))"
proof -
  have "name_ok E (player_name g)"
    using reachable_inv [OF assms] by (simp add: controller_inv_def)
  then have a: "length (player_name g) \<le> 15 \<and> (\<forall>c\<in>set (player_name g). accepted_char E c)"
    by (simp add: name_ok_def list_all_iff)
  have b: "player_name (dispatch E now pg (KEYDOWN k u) g)
            = (if length (player_name g) < 15 \<and> (\<forall>c\<in>set u. accepted_char E c)
               then player_name g @ u else player_name g)"
    if "state g = GAME_OVER" "is_highscore E (score_manager g)" "k \<noteq> K_RETURN"
       "k \<noteq> K_BACKSPACE" "length u \<le> 1"
    using that accepted_iff [OF that(5), of E]
    by (simp add: dispatch_def handle_game_over_events_def)
  have c: "player_name (dispatch E now pg (KEYDOWN K_BACKSPACE u) g) = butlast (player_name g)"
    if "state g = GAME_OVER" "is_highscore E (score_manager g)"
    using that by (simp add: dispatch_def handle_game_over_events_def key_defs)
  show ?thesis using a b c by blast
qed

theorem name_buffer_invariant_witness:
  "reachable demo_env demo_finished
   \<and> state demo_finished = GAME_OVER
   \<and> is_highscore demo_env (score_manager demo_finished)
   \<and> player_name (dispatch demo_env 0 [] (KEYDOWN 97 [97]) demo_finished) = [97]
   \<and> player_name (dispatch demo_env 0 [] (KEYDOWN 49 [33]) demo_finished) = []
   \<and> player_name (dispatch demo_env 0 [] (KEYDOWN K_BACKSPACE [8]) demo_finished) = []"
proof -
  note r = demo_finished_reachable
  have acc: "accepted_char demo_env 97" "\<not> accepted_char demo_env 33"
    by (simp_all add: accepted_char_def demo_env_def demo_alnum_def)
  have a: "player_name (dispatch demo_env 0 [] (KEYDOWN 97 [97]) demo_finished) = [97]"
    using name_buffer_invariant [OF r, of 97 "[97]" 0 "[]"] acc demo_finished_facts
    by (simp add: key_defs)
  have b: "player_name (dispatch demo_env 0 [] (KEYDOWN 49 [33]) demo_finished) = []"
    using name_buffer_invariant [OF r, of 49 "[33]" 0 "[]"] acc demo_finished_facts
    by (simp add: key_defs)
  have c: "player_name (dispatch demo_env 0 [] (KEYDOWN K_BACKSPACE [8]) demo_finished) = []"
    using name_buffer_invariant [OF r, of 0 "[8]" 0 "[]"] demo_finished_facts
    by simp
  show ?thesis using r demo_finished_facts a b c by simp
qed

section \<open>Shutdown\<close>

lemma run_loop_no_save:
  "run_loop E fs g = Some (r, g', cs) \<Longrightarrow> SaveHighscores \<notin> set cs"
proof (induction fs arbitrary: g r g' cs)
  case Nil
  then show ?case by (simp split: if_splits)
next
  case (Cons f fs)
  show ?case
  proof (cases "running g")
    case False
    with Cons.prems show ?thesis by simp
  next
    case True
    note run = True
    show ?thesis
    proof (cases "events_exn f")
      case (Some e)
      with Cons.prems run show ?thesis by auto
    next
      case None
      note ev = None
      show ?thesis
      proof (cases "update_exn f")
      case (Some e)
      with Cons.prems run ev show ?thesis by (auto simp: Let_def)
    next
      case None
      let ?g2 = "update E (ticks f) (handle_events E (events f) g)"
      have rec: "SaveHighscores \<notin> set cs"
        if "map_option (\<lambda>(r, g', cs'). (r, g', [HandleEvents, Update, Render] @ cs'))
              (run_loop E fs ?g2) = Some (r, g', cs)"
      proof -
        from that obtain r1 g1 cs1 where l: "run_loop E fs ?g2 = Some (r1, g1, cs1)"
          and c: "cs = [HandleEvents, Update, Render] @ cs1"
          by (cases "run_loop E fs ?g2") auto
        from Cons.IH [OF l] c show ?thesis by simp
      qed
      show ?thesis
      proof (cases "rendering f")
        case Rendered
        with Cons.prems run ev None rec show ?thesis by (simp add: Let_def)
      next
        case (VideoLost ok)
        with Cons.prems run ev None rec show ?thesis by (cases ok) (auto simp: Let_def)
      next
        case PygameError
        with Cons.prems run ev None rec show ?thesis by (simp add: Let_def)
      next
        case (RenderRaised e)
        with Cons.prems run ev None show ?thesis by (auto simp: Let_def)
      qed
    qed
    qed
  qed
qed

text \<open>
  Claim C7. Whenever \<^verbatim>\<open>run\<close> ends (the loop stops on the running flag, a
  KeyboardInterrupt is caught, or another exception propagates), it has called
  \<^verbatim>\<open>save_highscores\<close> exactly once, after the last call of the loop, and the score
  manager of the final state is the saved one.
\<close>

theorem save_highscores_once_on_exit:
  assumes "run E fs g = Some (ex, g', cs)"
  shows "length (filter (\<lambda>c. c = SaveHighscores) cs) = 1
     \<and> (\<exists>cs0. cs = cs0 @ [SaveHighscores, PygameQuit] \<and> SaveHighscores \<notin> set cs0)
     \<and> (\<exists>r g1 cs0. run_loop E fs g = Some (r, g1, cs0)
           \<and> g' = g1\<lparr>score_manager := save_highscores E (score_manager g1)\<rparr>
           \<and> ex = (case r of None \<Rightarrow> Returned | Some KeyboardInterrupt \<Rightarrow> Returned
                    | Some e \<Rightarrow> Raised e))"
proof -
  from assms obtain r g1 cs0 where l: "run_loop E fs g = Some (r, g1, cs0)"
    and g': "g' = g1\<lparr>score_manager := save_highscores E (score_manager g1)\<rparr>"
    and cs: "cs = cs0 @ [SaveHighscores, PygameQuit]"
    and ex: "ex = (case r of None \<Rightarrow> Returned | Some KeyboardInterrupt \<Rightarrow> Returned
                    | Some e \<Rightarrow> Raised e)"
    by (cases "run_loop E fs g") (auto simp: run_def)
  have no: "SaveHighscores \<notin> set cs0" by (rule run_loop_no_save [OF l])
  then have "filter (\<lambda>c. c = SaveHighscores) cs0 = []" by (auto simp: filter_empty_conv)
  then have one: "length (filter (\<lambda>c. c = SaveHighscores) cs) = 1" unfolding cs by simp
  show ?thesis using one cs no l g' ex by blast
qed

lemma demo_runs:
  "map_option (\<lambda>(ex, g, cs). (ex, cs)) (run demo_env [frame_idle, frame_quit] demo_start)
     = Some (Returned, [HandleEvents, Update, Render, HandleEvents, Update, Render,
                        SaveHighscores, PygameQuit])"
  "map_option (\<lambda>(ex, g, cs). (ex, cs)) (run demo_env [frame_idle, frame_interrupted] demo_start)
     = Some (Returned, [HandleEvents, Update, Render, HandleEvents, SaveHighscores, PygameQuit])"
  "map_option (\<lambda>(ex, g, cs). (ex, cs)) (run demo_env [frame_failing] demo_start)
     = Some (Raised Exception, [HandleEvents, Update, Render, SaveHighscores, PygameQuit])"
  by code_simp+

theorem save_highscores_once_on_exit_witness:
  "(\<exists>g cs. run demo_env [frame_idle, frame_quit] demo_start = Some (Returned, g, cs)
       \<and> length (filter (\<lambda>c. c = SaveHighscores) cs) = 1)
   \<and> (\<exists>g cs. run demo_env [frame_idle, frame_interrupted] demo_start = Some (Returned, g, cs)
       \<and> length (filter (\<lambda>c. c = SaveHighscores) cs) = 1)
   \<and> (\<exists>g cs. run demo_env [frame_failing] demo_start = Some (Raised Exception, g, cs)
       \<and> length (filter (\<lambda>c. c = SaveHighscores) cs) = 1)"
proof -
  obtain g1 cs1 where a: "run demo_env [frame_idle, frame_quit] demo_start = Some (Returned, g1, cs1)"
    using demo_runs(1) by auto
  obtain g2 cs2 where b: "run demo_env [frame_idle, frame_interrupted] demo_start = Some (Returned, g2, cs2)"
    using demo_runs(2) by auto
  obtain g3 cs3 where c: "run demo_env [frame_failing] demo_start = Some (Raised Exception, g3, cs3)"
    using demo_runs(3) by auto
  show ?thesis
    using a b c save_highscores_once_on_exit [OF a] save_highscores_once_on_exit [OF b]
      save_highscores_once_on_exit [OF c]
    by blast
qed

section \<open>The update outside play\<close>

text \<open>
  Claim C8. In the states Menu, Paused, GameOver, Rankings and Settings the frame update
  changes nothing: board, level, lines, piece, score, fall counter and generator are the
  fields of a controller state that is returned as it was.
\<close>

theorem update_noop_outside_play:
  "state g \<in> {MENU, PAUSED, GAME_OVER, RANKINGS, SETTINGS} \<Longrightarrow> update E now g = g"
  by (auto simp: update_def)

theorem update_noop_outside_play_witness:
  "state demo_over \<in> {MENU, PAUSED, GAME_OVER, RANKINGS, SETTINGS}
   \<and> update demo_env 16 demo_over = demo_over"
proof -
  have h: "state demo_over \<in> {MENU, PAUSED, GAME_OVER, RANKINGS, SETTINGS}"
    by (simp add: demo_over_def)
  show ?thesis using h update_noop_outside_play [OF h, of demo_env 16] by simp
qed

section \<open>Hard drop and key repetition\<close>

text \<open>
  Claim C10. During play a key-down of the hard-drop key performs one hard drop and leaves
  the recorded last key and its time as they were; the recorded key is never the hard-drop
  key, and the repetition of the held key either does nothing or applies the movement of
  another key, without touching board, generator or score: it never drops a piece.
\<close>

theorem hard_drop_once_per_keydown:
  assumes "reachable E g" and "state g = PLAYING"
  shows "dispatch E now pg (KEYDOWN K_SPACE u) g = perform_hard_drop E g
     \<and> last_key (dispatch E now pg (KEYDOWN K_SPACE u) g) = last_key g
     \<and> last_key_time (dispatch E now pg (KEYDOWN K_SPACE u) g) = last_key_time g
     \<and> last_key g \<noteq> Some K_SPACE
     \<and> (key_repeat E t g = g
        \<or> (\<exists>k. k \<noteq> K_SPACE \<and> last_key g = Some k
               \<and> key_repeat E t g = (apply_key_movement E k g)\<lparr>last_key_time := t + 120\<rparr>))
     \<and> board (key_repeat E t g) = board g
     \<and> piece_generator (key_repeat E t g) = piece_generator g
     \<and> score_manager (key_repeat E t g) = score_manager g"
proof -
  have i: "controller_inv E g" by (rule reachable_inv [OF assms(1)])
  have a: "dispatch E now pg (KEYDOWN K_SPACE u) g = perform_hard_drop E g"
    using assms(2) by (simp add: dispatch_def handle_game_events_def key_defs)
  have b: "last_key (perform_hard_drop E g) = last_key g
           \<and> last_key_time (perform_hard_drop E g) = last_key_time g"
    by (simp add: perform_hard_drop_def lock_and_spawn_frame split: prod.splits)
  have c: "last_key g \<noteq> Some K_SPACE" using i by (simp add: controller_inv_def)
  have d: "key_repeat E t g = g
        \<or> (\<exists>k. k \<noteq> K_SPACE \<and> last_key g = Some k
               \<and> key_repeat E t g = (apply_key_movement E k g)\<lparr>last_key_time := t + 120\<rparr>)"
  proof (cases "last_key g")
    case None
    then show ?thesis by (simp add: key_repeat_def)
  next
    case (Some k)
    with c have "k \<noteq> K_SPACE" by simp
    with Some i show ?thesis by (auto simp: key_repeat_def controller_inv_def)
  qed
  show ?thesis using a b c d by (simp add: key_repeat_fields)
qed

theorem hard_drop_once_per_keydown_witness:
  "reachable demo_env demo_playing \<and> state demo_playing = PLAYING
   \<and> dispatch demo_env 0 [] (KEYDOWN K_SPACE [32]) demo_playing
       = perform_hard_drop demo_env demo_playing
   \<and> last_key (dispatch demo_env 0 [] (KEYDOWN K_SPACE [32]) demo_playing) = None
   \<and> key_repeat demo_env 500 demo_playing = demo_playing"
proof -
  have p: "state demo_playing = PLAYING" by (simp add: demo_playing_eq)
  have l: "last_key demo_playing = None" by (simp add: demo_playing_eq)
  note th = hard_drop_once_per_keydown [OF demo_playing_reachable p, of 0 "[]" "[32]" 500]
  have a: "dispatch demo_env 0 [] (KEYDOWN K_SPACE [32]) demo_playing
             = perform_hard_drop demo_env demo_playing"
    using th by blast
  have "last_key (dispatch demo_env 0 [] (KEYDOWN K_SPACE [32]) demo_playing)
          = last_key demo_playing"
    using th by blast
  then have b: "last_key (dispatch demo_env 0 [] (KEYDOWN K_SPACE [32]) demo_playing) = None"
    unfolding l .
  have c: "key_repeat demo_env 500 demo_playing = demo_playing"
    using th l by auto
  show ?thesis using demo_playing_reachable p a b c by blast
qed

end
